theory Spec2Isabelle
  imports Main "HOL-Library.AList" "HOL-Library.Multiset"
begin

section \<open>Data model\<close>

text \<open>
  The development follows \<^verbatim>\<open>potions_3.py\<close>, the later of the two files
  (\<^verbatim>\<open>potions_1.py\<close> holds the same classes without \<^verbatim>\<open>get_cost\<close>,
  \<^verbatim>\<open>optimize_potions\<close>, \<^verbatim>\<open>consume_ingredient\<close> and \<^verbatim>\<open>generate_ingredient\<close>).

  Python objects have an identity, and none of the classes defines \<^verbatim>\<open>__eq__\<close> or
  \<^verbatim>\<open>__hash__\<close>: two objects are equal exactly when they are the same object. Every
  object therefore carries the identity \<open>ident\<close> it was allocated with. The fields of an
  ingredient are never assigned after \<^verbatim>\<open>__init__\<close>, so an ingredient object is the
  value of its identity and its fields; the \<^verbatim>\<open>_extra_powers\<close> field of a potion is
  assigned by \<^verbatim>\<open>brew\<close>, so it lives in the store and a potion object is its identity
  and its class.
\<close>

datatype error =
  TypeError | AttributeError | KeyError | ValueError | IndexError
  | NetworkXError | NetworkXUnfeasible | RuntimeError

datatype ingredient_class = Herb | Mushroom | Root

datatype potion_class = HealingPotion | InvisibilityPotion | StrengthPotion

record ingredient =
  ident :: nat
  cls :: ingredient_class
  quantity :: int
  quality :: string

text \<open>
  The values that occur as graph nodes: a potion class (the script passes the classes),
  a potion instance, an ingredient instance.
\<close>

datatype node =
  PotionClass potion_class
  | PotionInst nat potion_class
  | IngredientInst ingredient

type_synonym inventory = "string \<rightharpoonup> ingredient list"

type_synonym budget = "string \<rightharpoonup> int"

text \<open>
  The state of the interpreter that the program touches. \<open>next_ident\<close> is the
  allocator; \<open>dicts\<close> holds the inventory dictionaries by address, so that the two
  \<^verbatim>\<open>inventory\<close> attributes are references that may or may not alias;
  \<open>extra_powers\<close> holds \<^verbatim>\<open>_extra_powers\<close> of every potion object;
  \<open>active_instances\<close> is the class attribute of \<^verbatim>\<open>MagickalPotion\<close>.
  The environment is explicit: \<open>tape\<close> is the sequence of draws of the random source,
  read at \<open>cursor\<close>, and \<open>hash_order\<close> decides the iteration order of a set of
  objects, which in Python depends on their addresses. Every theorem quantifies over the
  whole state, hence over every sequence of draws and every iteration order.
  \<^verbatim>\<open>print\<close> calls are left out.
\<close>

record world =
  next_ident :: nat
  dicts :: "nat \<Rightarrow> inventory"
  extra_powers :: "nat \<Rightarrow> int"
  active_instances :: "node list"
  tape :: "nat \<Rightarrow> nat"
  cursor :: nat
  hash_order :: "nat \<Rightarrow> nat"

section \<open>The random source\<close>

definition draw :: "world \<Rightarrow> nat \<times> world" where
  "draw w = (tape w (cursor w), w\<lparr>cursor := Suc (cursor w)\<rparr>)"

text \<open>\<^verbatim>\<open>random.choice(seq)\<close>: IndexError on an empty sequence.\<close>

definition choice :: "'a list \<Rightarrow> world \<Rightarrow> (error + 'a) \<times> world" where
  "choice xs w =
     (if xs = [] then (Inl IndexError, w)
      else (case draw w of (k, w') \<Rightarrow> (Inr (xs ! (k mod length xs)), w')))"

text \<open>\<^verbatim>\<open>random.randint(a, b)\<close>: an integer of [a, b]; ValueError on an empty range.\<close>

definition randint :: "int \<Rightarrow> int \<Rightarrow> world \<Rightarrow> (error + int) \<times> world" where
  "randint a b w =
     (if b < a then (Inl ValueError, w)
      else (case draw w of (k, w') \<Rightarrow> (Inr (a + int k mod (b - a + 1)), w')))"

text \<open>
  \<^verbatim>\<open>poissonvariate(mean, lag)\<close> is imported from \<^verbatim>\<open>random\<close>, which has no
  function of that name; it is taken as an operation of the external random source that
  returns the next draw, whatever its arguments.
\<close>

definition poissonvariate :: "int \<Rightarrow> int \<Rightarrow> world \<Rightarrow> int \<times> world" where
  "poissonvariate mean lag w = (case draw w of (k, w') \<Rightarrow> (int k, w'))"

section \<open>Ingredients\<close>

definition quality_options :: "string list" where
  "quality_options = [''normal'', ''premium'', ''legendary'']"

definition quality_costs :: "string \<rightharpoonup> int" where
  "quality_costs = [''normal'' \<mapsto> 1, ''premium'' \<mapsto> 3, ''legendary'' \<mapsto> 5]"

fun class_name :: "ingredient_class \<Rightarrow> string" where
  "class_name Herb = ''Herb''"
| "class_name Mushroom = ''Mushroom''"
| "class_name Root = ''Root''"

definition get_name :: "ingredient \<Rightarrow> string" where
  "get_name i = class_name (cls i)"

text \<open>
  \<^verbatim>\<open>return self.quantity * self.quality_costs[self.quality]\<close>: the subscript raises
  KeyError for a quality that is not a key of the table.
\<close>

definition get_cost :: "ingredient \<Rightarrow> error + int" where
  "get_cost i =
     (case quality_costs (quality i) of
        None \<Rightarrow> Inl KeyError
      | Some c \<Rightarrow> Inr (quantity i * c))"

text \<open>\<^verbatim>\<open>ingredient_class(quantity, quality)\<close>: a new object.\<close>

definition new_ingredient ::
  "ingredient_class \<Rightarrow> int \<Rightarrow> string \<Rightarrow> world \<Rightarrow> ingredient \<times> world" where
  "new_ingredient c n q w =
     (\<lparr>ident = next_ident w, cls = c, quantity = n, quality = q\<rparr>,
      w\<lparr>next_ident := Suc (next_ident w)\<rparr>)"

section \<open>Potions\<close>

text \<open>
  Calling a node, \<^verbatim>\<open>potion_class()\<close>. A potion class is instantiated by
  \<^verbatim>\<open>MagickalPotion.__init__\<close>, which appends the new object to
  \<^verbatim>\<open>active_instances\<close> and sets \<^verbatim>\<open>_extra_powers\<close> to 0. A potion instance
  and an ingredient instance are not callable: TypeError.
\<close>

fun call_node :: "node \<Rightarrow> world \<Rightarrow> (error + node) \<times> world" where
  "call_node (PotionClass c) w =
     (Inr (PotionInst (next_ident w) c),
      w\<lparr>next_ident := Suc (next_ident w),
        extra_powers := (extra_powers w)(next_ident w := 0),
        active_instances := active_instances w @ [PotionInst (next_ident w) c]\<rparr>)"
| "call_node (PotionInst n c) w = (Inl TypeError, w)"
| "call_node (IngredientInst i) w = (Inl TypeError, w)"

definition set_extra_powers :: "nat \<Rightarrow> int \<Rightarrow> world \<Rightarrow> world" where
  "set_extra_powers n v w = w\<lparr>extra_powers := (extra_powers w)(n := v)\<rparr>"

text \<open>\<^verbatim>\<open>StrengthPotion\<close> overrides \<^verbatim>\<open>get_extra_powers\<close> and adds 10.\<close>

fun get_extra_powers :: "node \<Rightarrow> world \<Rightarrow> error + int" where
  "get_extra_powers (PotionInst n StrengthPotion) w = Inr (extra_powers w n + 10)"
| "get_extra_powers (PotionInst n c) w = Inr (extra_powers w n)"
| "get_extra_powers x w = Inl AttributeError"

text \<open>The arguments of \<^verbatim>\<open>poissonvariate\<close> and the set display of each \<^verbatim>\<open>brew\<close>.\<close>

fun poisson_args :: "potion_class \<Rightarrow> int \<times> int" where
  "poisson_args HealingPotion = (3, 1)"
| "poisson_args InvisibilityPotion = (2, 1)"
| "poisson_args StrengthPotion = (4, 2)"

fun recipe :: "potion_class \<Rightarrow> (ingredient_class \<times> int \<times> string) list" where
  "recipe HealingPotion =
     [(Herb, 3, ''normal''), (Mushroom, 2, ''normal''), (Root, 1, ''normal'')]"
| "recipe InvisibilityPotion =
     [(Herb, 2, ''premium''), (Mushroom, 1, ''normal''), (Root, 1, ''normal'')]"
| "recipe StrengthPotion =
     [(Herb, 2, ''legendary''), (Mushroom, 3, ''premium''), (Root, 2, ''premium'')]"

text \<open>The elements of a set display are constructed from left to right.\<close>

fun new_ingredients ::
  "(ingredient_class \<times> int \<times> string) list \<Rightarrow> world \<Rightarrow> ingredient list \<times> world" where
  "new_ingredients [] w = ([], w)"
| "new_ingredients ((c, n, q) # rs) w =
     (case new_ingredient c n q w of (i, w1) \<Rightarrow>
        (case new_ingredients rs w1 of (is, w2) \<Rightarrow> (i # is, w2)))"

text \<open>
  The order in which a set is iterated: the permutation of its elements that the number
  \<open>k\<close> encodes (every permutation is encoded by some \<open>k\<close>).
\<close>

fun set_iter :: "nat \<Rightarrow> 'a list \<Rightarrow> 'a list" where
  "set_iter k [] = []"
| "set_iter k (x # xs) =
     (let j = k mod Suc (length xs)
      in (x # xs) ! j # set_iter (k div Suc (length xs)) (take j (x # xs) @ drop (Suc j) (x # xs)))"

text \<open>
  \<^verbatim>\<open>brew\<close> is an instance method. \<^verbatim>\<open>potion.brew()\<close> on a class calls the plain
  function without \<^verbatim>\<open>self\<close>: TypeError. An ingredient has no attribute
  \<^verbatim>\<open>brew\<close>: AttributeError. The result is the set's elements in iteration order.
\<close>

fun brew :: "node \<Rightarrow> world \<Rightarrow> (error + ingredient list) \<times> world" where
  "brew (PotionInst n c) w =
     (case poissonvariate (fst (poisson_args c)) (snd (poisson_args c)) w of
        (extra, w1) \<Rightarrow>
          (case new_ingredients (recipe c) (set_extra_powers n extra w1) of
             (ingredients, w2) \<Rightarrow>
               (Inr (set_iter (hash_order w2 (next_ident w1)) ingredients), w2)))"
| "brew (PotionClass c) w = (Inl TypeError, w)"
| "brew (IngredientInst i) w = (Inl AttributeError, w)"

section \<open>The directed graph\<close>

text \<open>
  \<^verbatim>\<open>networkx.DiGraph\<close>, after the library: nodes and adjacency are dictionaries,
  iterated in insertion order; adding a node or an edge that is present changes nothing.
\<close>

record graph =
  nodes :: "node list"
  edges :: "(node \<times> node) list"

definition DiGraph :: graph where
  "DiGraph = \<lparr>nodes = [], edges = []\<rparr>"

definition add_node :: "graph \<Rightarrow> node \<Rightarrow> graph" where
  "add_node g n = (if n \<in> set (nodes g) then g else g\<lparr>nodes := nodes g @ [n]\<rparr>)"

definition add_nodes_from :: "graph \<Rightarrow> node list \<Rightarrow> graph" where
  "add_nodes_from g ns = foldl add_node g ns"

definition add_edge :: "graph \<Rightarrow> node \<Rightarrow> node \<Rightarrow> graph" where
  "add_edge g u v =
     (let g' = add_node (add_node g u) v
      in if (u, v) \<in> set (edges g') then g' else g'\<lparr>edges := edges g' @ [(u, v)]\<rparr>)"

text \<open>\<^verbatim>\<open>G.successors(n)\<close> and \<^verbatim>\<open>G.predecessors(n)\<close>: NetworkXError off the graph.\<close>

definition successors :: "graph \<Rightarrow> node \<Rightarrow> error + node list" where
  "successors g n =
     (if n \<in> set (nodes g) then Inr (map snd (filter (\<lambda>e. fst e = n) (edges g)))
      else Inl NetworkXError)"

definition predecessors :: "graph \<Rightarrow> node \<Rightarrow> error + node list" where
  "predecessors g n =
     (if n \<in> set (nodes g) then Inr (map fst (filter (\<lambda>e. snd e = n) (edges g)))
      else Inl NetworkXError)"

definition in_degree :: "graph \<Rightarrow> node \<Rightarrow> int" where
  "in_degree g n = int (length (filter (\<lambda>e. snd e = n) (edges g)))"

section \<open>Topological sort\<close>

text \<open>
  \<^verbatim>\<open>networkx.topological_sort\<close>, after the library: the nodes of
  \<^verbatim>\<open>topological_generations\<close>, generation by generation. The generator keeps a
  dictionary of the positive in-degrees and the list of the nodes of in-degree zero;
  visiting a node decrements each child, and a child that reaches zero leaves the
  dictionary and joins the next generation. A node off the graph or a child off the
  dictionary is RuntimeError; entries left over at the end are a cycle,
  NetworkXUnfeasible.
\<close>

fun visit_children ::
  "node list \<Rightarrow> (node \<times> int) list \<Rightarrow> node list \<Rightarrow> error + ((node \<times> int) list \<times> node list)" where
  "visit_children [] im zero = Inr (im, zero)"
| "visit_children (child # cs) im zero =
     (case map_of im child of
        None \<Rightarrow> Inl RuntimeError
      | Some d \<Rightarrow>
          if d - 1 = 0 then visit_children cs (AList.delete child im) (zero @ [child])
          else visit_children cs (AList.update child (d - 1) im) zero)"

fun visit_generation ::
  "graph \<Rightarrow> node list \<Rightarrow> (node \<times> int) list \<Rightarrow> node list \<Rightarrow> error + ((node \<times> int) list \<times> node list)" where
  "visit_generation g [] im zero = Inr (im, zero)"
| "visit_generation g (n # ns) im zero =
     (case successors g n of
        Inl e \<Rightarrow> Inl RuntimeError
      | Inr cs \<Rightarrow>
          (case visit_children cs im zero of
             Inl e \<Rightarrow> Inl e
           | Inr (im', zero') \<Rightarrow> visit_generation g ns im' zero'))"

lemma length_delete_less:
  "map_of al k = Some v \<Longrightarrow> length (AList.delete k al) < length al"
  by (induction al) (auto simp: less_Suc_eq_le AList.length_delete_le split: if_splits)

lemma length_update_present:
  "map_of al k = Some v \<Longrightarrow> length (AList.update k v' al) = length al"
  by (induction al) (auto split: if_splits)

lemma visit_children_length:
  "visit_children cs im zero = Inr (im', zero') \<Longrightarrow>
     length im' + length zero' \<le> length im + length zero"
proof (induction cs arbitrary: im zero)
  case Nil
  then show ?case by simp
next
  case (Cons c cs)
  then obtain d where d: "map_of im c = Some d"
    by (cases "map_of im c") auto
  show ?case
  proof (cases "d - 1 = 0")
    case True
    with Cons.prems d have "visit_children cs (AList.delete c im) (zero @ [c]) = Inr (im', zero')"
      by simp
    from Cons.IH [OF this] length_delete_less [OF d] show ?thesis by simp
  next
    case False
    with Cons.prems d have "visit_children cs (AList.update c (d - 1) im) zero = Inr (im', zero')"
      by simp
    from Cons.IH [OF this] length_update_present [OF d] show ?thesis by simp
  qed
qed

lemma visit_generation_length:
  "visit_generation g ns im zero = Inr (im', zero') \<Longrightarrow>
     length im' + length zero' \<le> length im + length zero"
proof (induction ns arbitrary: im zero)
  case Nil
  then show ?case by simp
next
  case (Cons n ns)
  from Cons.prems obtain cs where cs: "successors g n = Inr cs"
    by (cases "successors g n") auto
  from Cons.prems cs obtain im1 zero1 where
    v: "visit_children cs im zero = Inr (im1, zero1)"
    by (cases "visit_children cs im zero") auto
  with Cons.prems cs have "visit_generation g ns im1 zero1 = Inr (im', zero')"
    by simp
  from Cons.IH [OF this] visit_children_length [OF v] show ?case by simp
qed

function topological_loop ::
  "graph \<Rightarrow> node list \<Rightarrow> (node \<times> int) list \<Rightarrow> node list \<Rightarrow> error + node list" where
  "topological_loop g zero im out =
     (if zero = [] then (if im = [] then Inr out else Inl NetworkXUnfeasible)
      else (case visit_generation g zero im [] of
              Inl e \<Rightarrow> Inl e
            | Inr (im', zero') \<Rightarrow> topological_loop g zero' im' (out @ zero)))"
  by pat_completeness auto
termination
proof (relation "measure (\<lambda>(g, zero, im, out). 2 * length im + (if zero = [] then 0 else 1))")
  show "wf (measure (\<lambda>(g, zero, im, out). 2 * length im + (if zero = [] then 0 else 1)))"
    by simp
next
  fix g :: graph and zero :: "node list" and im :: "(node \<times> int) list" and out :: "node list"
    and x2 :: "(node \<times> int) list \<times> node list" and im' zero'
  assume "zero \<noteq> []" and a: "visit_generation g zero im [] = Inr x2" and b: "(im', zero') = x2"
  from a b have "visit_generation g zero im [] = Inr (im', zero')" by simp
  from visit_generation_length [OF this] \<open>zero \<noteq> []\<close>
  show "((g, zero', im', out @ zero), g, zero, im, out)
          \<in> measure (\<lambda>(g, zero, im, out). 2 * length im + (if zero = [] then 0 else 1))"
    by (cases zero') auto
qed

declare topological_loop.simps [simp del]

definition topological_sort :: "graph \<Rightarrow> error + node list" where
  "topological_sort g =
     topological_loop g
       (filter (\<lambda>n. in_degree g n = 0) (nodes g))
       (map (\<lambda>n. (n, in_degree g n)) (filter (\<lambda>n. 0 < in_degree g n) (nodes g)))
       []"

section \<open>Sorcerer\<close>

text \<open>
  \<^verbatim>\<open>Sorcerer.__init__\<close>: a new empty dictionary for \<^verbatim>\<open>inventory\<close>, and the
  counters of \<^verbatim>\<open>potion_count\<close>, which no method reads or writes again.
\<close>

record sorcerer =
  sorcerer_inventory :: nat
  potion_count :: "potion_class \<rightharpoonup> int"

definition new_dict :: "world \<Rightarrow> nat \<times> world" where
  "new_dict w =
     (next_ident w,
      w\<lparr>next_ident := Suc (next_ident w), dicts := (dicts w)(next_ident w := Map.empty)\<rparr>)"

definition Sorcerer_init :: "world \<Rightarrow> sorcerer \<times> world" where
  "Sorcerer_init w =
     (case new_dict w of (a, w') \<Rightarrow>
        (\<lparr>sorcerer_inventory = a,
          potion_count = [HealingPotion \<mapsto> 0, InvisibilityPotion \<mapsto> 0, StrengthPotion \<mapsto> 0]\<rparr>,
         w'))"

text \<open>
  \<^verbatim>\<open>generate_potion\<close> and \<^verbatim>\<open>generate_graph\<close> do not use \<^verbatim>\<open>self\<close>.
  \<^verbatim>\<open>generate_potion\<close> chooses among all the nodes of the graph, calls the chosen
  node, brews the result and returns the potion alone.
\<close>

definition generate_potion :: "graph \<Rightarrow> world \<Rightarrow> (error + node) \<times> world" where
  "generate_potion potion_graph w =
     (case choice (nodes potion_graph) w of
        (Inl e, w1) \<Rightarrow> (Inl e, w1)
      | (Inr potion_class, w1) \<Rightarrow>
          (case call_node potion_class w1 of
             (Inl e, w2) \<Rightarrow> (Inl e, w2)
           | (Inr potion, w2) \<Rightarrow>
               (case brew potion w2 of
                  (Inl e, w3) \<Rightarrow> (Inl e, w3)
                | (Inr ingredients, w3) \<Rightarrow> (Inr potion, w3))))"

definition add_edges :: "graph \<Rightarrow> node \<Rightarrow> ingredient list \<Rightarrow> graph" where
  "add_edges g potion ingredients =
     foldl (\<lambda>g' ingredient. add_edge g' potion (IngredientInst ingredient)) g ingredients"

fun generate_graph_loop :: "node list \<Rightarrow> graph \<Rightarrow> world \<Rightarrow> (error + graph) \<times> world" where
  "generate_graph_loop [] g w = (Inr g, w)"
| "generate_graph_loop (potion # ps) g w =
     (case brew potion w of
        (Inl e, w') \<Rightarrow> (Inl e, w')
      | (Inr ingredients, w') \<Rightarrow> generate_graph_loop ps (add_edges g potion ingredients) w')"

definition generate_graph :: "node list \<Rightarrow> world \<Rightarrow> (error + graph) \<times> world" where
  "generate_graph potions w = generate_graph_loop potions (add_nodes_from DiGraph potions) w"

text \<open>\<^verbatim>\<open>list.remove(x)\<close>: the first occurrence; ValueError when there is none.\<close>

definition list_remove :: "'a list \<Rightarrow> 'a \<Rightarrow> error + 'a list" where
  "list_remove xs x = (if x \<in> set xs then Inr (remove1 x xs) else Inl ValueError)"

text \<open>
  The loop of \<^verbatim>\<open>consume_ingredient\<close> over the successors. The dictionary
  \<^verbatim>\<open>herbs_used\<close> and the inventory are updated in place, so the state at the moment
  of an exception is part of the result. A successor that is not an ingredient has no
  \<^verbatim>\<open>get_cost\<close>: AttributeError. \<^verbatim>\<open>herbs_used[quality]\<close> and
  \<^verbatim>\<open>self.inventory[name]\<close> raise KeyError on a missing key.
\<close>

fun consume_loop ::
  "sorcerer \<Rightarrow> node list \<Rightarrow> budget \<Rightarrow> world \<Rightarrow> error option \<times> budget \<times> world" where
  "consume_loop self [] herbs_used w = (None, herbs_used, w)"
| "consume_loop self (IngredientInst ingredient # rest) herbs_used w =
     (case get_cost ingredient of
        Inl e \<Rightarrow> (Some e, herbs_used, w)
      | Inr herb_cost \<Rightarrow>
          (case herbs_used (quality ingredient) of
             None \<Rightarrow> (Some KeyError, herbs_used, w)
           | Some b \<Rightarrow>
               if b \<ge> herb_cost then
                 (case dicts w (sorcerer_inventory self) (get_name ingredient) of
                    None \<Rightarrow> (Some KeyError, herbs_used, w)
                  | Some stock \<Rightarrow>
                      (case list_remove stock ingredient of
                         Inl e \<Rightarrow> (Some e, herbs_used, w)
                       | Inr stock' \<Rightarrow>
                           consume_loop self rest
                             (herbs_used(quality ingredient \<mapsto> b - herb_cost))
                             (w\<lparr>dicts := (dicts w)(sorcerer_inventory self :=
                                  (dicts w (sorcerer_inventory self))
                                    (get_name ingredient \<mapsto> stock'))\<rparr>)))
               else consume_loop self rest herbs_used w))"
| "consume_loop self (other # rest) herbs_used w = (Some AttributeError, herbs_used, w)"

definition consume_ingredient ::
  "sorcerer \<Rightarrow> node \<Rightarrow> graph \<Rightarrow> budget \<Rightarrow> world \<Rightarrow> (error + budget) \<times> world" where
  "consume_ingredient self ingredient_class potion_graph herbs_used w =
     (case successors potion_graph ingredient_class of
        Inl e \<Rightarrow> (Inl e, w)
      | Inr ingredients \<Rightarrow>
          (case consume_loop self ingredients herbs_used w of
             (Some e, h, w') \<Rightarrow> (Inl e, w')
           | (None, h, w') \<Rightarrow> (Inr h, w')))"

text \<open>The inner loop of \<^verbatim>\<open>optimize_potions\<close>, over the predecessors of a node.\<close>

fun consume_all ::
  "sorcerer \<Rightarrow> node list \<Rightarrow> graph \<Rightarrow> budget \<Rightarrow> world \<Rightarrow> error option \<times> budget \<times> world" where
  "consume_all self [] g herbs_used w = (None, herbs_used, w)"
| "consume_all self (ingredient_class # rest) g herbs_used w =
     (case successors g ingredient_class of
        Inl e \<Rightarrow> (Some e, herbs_used, w)
      | Inr ingredients \<Rightarrow>
          (case consume_loop self ingredients herbs_used w of
             (Some e, h, w') \<Rightarrow> (Some e, h, w')
           | (None, h, w') \<Rightarrow> consume_all self rest g h w'))"

text \<open>
  The outer loop, over the topological order: every node is called, whatever it is.
  The result carries \<^verbatim>\<open>herbs_used\<close> and \<^verbatim>\<open>optimized_potions\<close> as they are
  when the loop ends or raises.
\<close>

fun optimize_loop ::
  "sorcerer \<Rightarrow> graph \<Rightarrow> node list \<Rightarrow> budget \<Rightarrow> node list \<Rightarrow> world
     \<Rightarrow> error option \<times> budget \<times> node list \<times> world" where
  "optimize_loop self g [] herbs_used optimized_potions w =
     (None, herbs_used, optimized_potions, w)"
| "optimize_loop self g (potion_class # rest) herbs_used optimized_potions w =
     (case call_node potion_class w of
        (Inl e, w1) \<Rightarrow> (Some e, herbs_used, optimized_potions, w1)
      | (Inr potion, w1) \<Rightarrow>
          (case predecessors g potion_class of
             Inl e \<Rightarrow> (Some e, herbs_used, optimized_potions, w1)
           | Inr available_ingredients \<Rightarrow>
               (case consume_all self available_ingredients g herbs_used w1 of
                  (Some e, h, w2) \<Rightarrow> (Some e, h, optimized_potions, w2)
                | (None, h, w2) \<Rightarrow>
                    optimize_loop self g rest h (optimized_potions @ [potion]) w2)))"

definition reset_budget :: budget where
  "reset_budget = map_of (map (\<lambda>q. (q, 0)) quality_options)"

definition optimize_potions :: "sorcerer \<Rightarrow> graph \<Rightarrow> world \<Rightarrow> (error + node list) \<times> world" where
  "optimize_potions self potion_graph w =
     (case topological_sort potion_graph of
        Inl e \<Rightarrow> (Inl e, w)
      | Inr sorted_potions \<Rightarrow>
          (case optimize_loop self potion_graph sorted_potions reset_budget [] w of
             (Some e, h, optimized_potions, w') \<Rightarrow> (Inl e, w')
           | (None, h, optimized_potions, w') \<Rightarrow> (Inr optimized_potions, w')))"

section \<open>Botanist\<close>

record botanist =
  botanist_inventory :: nat

definition Botanist_init :: "world \<Rightarrow> botanist \<times> world" where
  "Botanist_init w = (case new_dict w of (a, w') \<Rightarrow> (\<lparr>botanist_inventory = a\<rparr>, w'))"

definition add_ingredient :: "botanist \<Rightarrow> ingredient \<Rightarrow> world \<Rightarrow> world" where
  "add_ingredient self ingredient w =
     (let inv = dicts w (botanist_inventory self);
          stock = (case inv (get_name ingredient) of None \<Rightarrow> [] | Some l \<Rightarrow> l)
      in w\<lparr>dicts := (dicts w)(botanist_inventory self :=
            inv(get_name ingredient \<mapsto> stock @ [ingredient]))\<rparr>)"

definition remove_ingredient :: "botanist \<Rightarrow> ingredient \<Rightarrow> world \<Rightarrow> world" where
  "remove_ingredient self ingredient w =
     (case dicts w (botanist_inventory self) (get_name ingredient) of
        None \<Rightarrow> w
      | Some stock \<Rightarrow>
          if ingredient \<in> set stock then
            w\<lparr>dicts := (dicts w)(botanist_inventory self :=
                 (dicts w (botanist_inventory self))
                   (get_name ingredient \<mapsto> remove1 ingredient stock))\<rparr>
          else w)"

text \<open>
  \<^verbatim>\<open>generate_ingredient\<close> has no \<^verbatim>\<open>return\<close> statement: its value is
  \<^verbatim>\<open>None\<close>, the \<open>None\<close> of the result here; \<open>Some\<close> would be a returned ingredient.
\<close>

definition generate_ingredient ::
  "botanist \<Rightarrow> world \<Rightarrow> (error + ingredient option) \<times> world" where
  "generate_ingredient self w =
     (case choice [Herb, Mushroom, Root] w of
        (Inl e, w1) \<Rightarrow> (Inl e, w1)
      | (Inr ingredient_class, w1) \<Rightarrow>
          (case randint 1 5 w1 of
             (Inl e, w2) \<Rightarrow> (Inl e, w2)
           | (Inr qty, w2) \<Rightarrow>
               (case choice quality_options w2 of
                  (Inl e, w3) \<Rightarrow> (Inl e, w3)
                | (Inr qual, w3) \<Rightarrow>
                    (case new_ingredient ingredient_class qty qual w3 of
                       (ingredient, w4) \<Rightarrow> (Inr None, add_ingredient self ingredient w4)))))"

text \<open>
  \<^verbatim>\<open>show_inventory\<close> prints; the pairs it prints are the name and the length of
  each entry.
\<close>

definition inventory_count :: "world \<Rightarrow> nat \<Rightarrow> string \<Rightarrow> nat" where
  "inventory_count w a name = (case dicts w a name of None \<Rightarrow> 0 | Some stock \<Rightarrow> length stock)"

section \<open>Notions used in the statements\<close>

text \<open>
  The kinds of node, the requirement (class, quantity, quality) that an ingredient node
  stands for, the recipe of a potion node, and the successors of a node as a plain list.
\<close>

fun is_potion_instance :: "node \<Rightarrow> bool" where
  "is_potion_instance (PotionInst n c) = True"
| "is_potion_instance x = False"

fun is_ingredient :: "node \<Rightarrow> bool" where
  "is_ingredient (IngredientInst i) = True"
| "is_ingredient x = False"

fun requirement :: "node \<Rightarrow> (ingredient_class \<times> int \<times> string) option" where
  "requirement (IngredientInst i) = Some (cls i, quantity i, quality i)"
| "requirement x = None"

fun recipe_of :: "node \<Rightarrow> (ingredient_class \<times> int \<times> string) list" where
  "recipe_of (PotionInst n c) = recipe c"
| "recipe_of (PotionClass c) = recipe c"
| "recipe_of (IngredientInst i) = []"


definition children :: "graph \<Rightarrow> node \<Rightarrow> node list" where
  "children g n = map snd (filter (\<lambda>e. fst e = n) (edges g))"

section \<open>Auxiliary facts\<close>

subsection \<open>Iteration order, brewing and the graph builder\<close>

lemma mset_set_iter: "mset (set_iter k xs) = mset xs"
proof (induction k xs rule: set_iter.induct)
  case (1 k)
  then show ?case by simp
next
  case (2 k x xs)
  define ys where "ys = x # xs"
  define j where "j = k mod Suc (length xs)"
  have j: "j < length ys" by (simp add: j_def ys_def)
  have "mset (set_iter k ys) = add_mset (ys ! j) (mset (take j ys @ drop (Suc j) ys))"
    using "2.IH" [of j] by (simp add: ys_def j_def Let_def)
  also have "\<dots> = mset (take j ys @ ys ! j # drop (Suc j) ys)" by simp
  also have "\<dots> = mset ys" using id_take_nth_drop [OF j] by simp
  finally show ?case by (simp add: ys_def)
qed

lemma set_set_iter: "set (set_iter k xs) = set xs"
  using mset_set_iter [of k xs] by (metis set_mset_mset)

lemma length_set_iter: "length (set_iter k xs) = length xs"
  using mset_set_iter [of k xs] by (metis size_mset)

lemma distinct_set_iter: "distinct (set_iter k xs) = distinct xs"
  using mset_set_iter [of k xs] by (metis mset_eq_imp_distinct_iff)

lemma new_ingredients_spec:
  "new_ingredients rs w = (xs, w') \<Longrightarrow>
     map (\<lambda>x. (cls x, quantity x, quality x)) xs = rs
   \<and> distinct (map ident xs)
   \<and> (\<forall>x\<in>set xs. next_ident w \<le> ident x \<and> ident x < next_ident w + length rs)
   \<and> w' = w\<lparr>next_ident := next_ident w + length rs\<rparr>"
proof (induction rs arbitrary: w xs w')
  case Nil
  then show ?case by simp
next
  case (Cons r rs)
  obtain c n q where r: "r = (c, n, q)" by (cases r)
  obtain i w1 where i: "new_ingredient c n q w = (i, w1)" by (cases "new_ingredient c n q w")
  obtain ys w2 where ys: "new_ingredients rs w1 = (ys, w2)" by (cases "new_ingredients rs w1")
  from Cons.prems r i ys have xs: "xs = i # ys" and w': "w' = w2" by auto
  from i have i': "i = \<lparr>ident = next_ident w, cls = c, quantity = n, quality = q\<rparr>"
    and w1: "w1 = w\<lparr>next_ident := Suc (next_ident w)\<rparr>"
    by (auto simp: new_ingredient_def)
  from Cons.IH [OF ys] w1 i' xs w' r show ?case
    by (auto simp: less_Suc_eq_le)
qed


lemma length_recipe: "length (recipe c) = 3"
  by (cases c) simp_all

lemma brew_instance:
  "\<exists>xs w'. brew (PotionInst n c) w = (Inr xs, w')
     \<and> mset (map (\<lambda>x. (cls x, quantity x, quality x)) xs) = mset (recipe c)
     \<and> distinct (map ident xs)
     \<and> (\<forall>x\<in>set xs. next_ident w \<le> ident x \<and> ident x < next_ident w')
     \<and> next_ident w' = next_ident w + 3
     \<and> dicts w' = dicts w"
proof -
  obtain extra w1 where p: "poissonvariate (fst (poisson_args c)) (snd (poisson_args c)) w = (extra, w1)"
    by (cases "poissonvariate (fst (poisson_args c)) (snd (poisson_args c)) w")
  then have w1: "next_ident w1 = next_ident w" "dicts w1 = dicts w"
    by (auto simp: poissonvariate_def draw_def)
  obtain ys w2 where n: "new_ingredients (recipe c) (set_extra_powers n extra w1) = (ys, w2)"
    by (cases "new_ingredients (recipe c) (set_extra_powers n extra w1)")
  from new_ingredients_spec [OF n]
  have s1: "map (\<lambda>x. (cls x, quantity x, quality x)) ys = recipe c"
    and s2: "distinct (map ident ys)"
    and s3: "\<forall>x\<in>set ys. next_ident (set_extra_powers n extra w1) \<le> ident x
               \<and> ident x < next_ident (set_extra_powers n extra w1) + length (recipe c)"
    and s4: "w2 = (set_extra_powers n extra w1)\<lparr>next_ident :=
               next_ident (set_extra_powers n extra w1) + length (recipe c)\<rparr>"
    by blast+
  let ?xs = "set_iter (hash_order w2 (next_ident w1)) ys"
  have b: "brew (PotionInst n c) w = (Inr ?xs, w2)"
    by (simp only: brew.simps p n prod.case)
  have m: "mset ?xs = mset ys" by (rule mset_set_iter)
  have "mset (map (\<lambda>x. (cls x, quantity x, quality x)) ?xs)
          = image_mset (\<lambda>x. (cls x, quantity x, quality x)) (mset ys)"
    by (simp only: mset_map m)
  also have "\<dots> = mset (recipe c)"
    using s1 by (simp only: mset_map [symmetric])
  finally have 1: "mset (map (\<lambda>x. (cls x, quantity x, quality x)) ?xs) = mset (recipe c)" .
  have "mset (map ident ?xs) = mset (map ident ys)"
    by (simp only: mset_map m)
  then have 2: "distinct (map ident ?xs)"
    using s2 mset_eq_imp_distinct_iff by blast
  have 3: "set ?xs = set ys" by (rule set_set_iter)
  have 4: "next_ident w2 = next_ident w + 3" "dicts w2 = dicts w"
    by (simp_all add: s4 w1 set_extra_powers_def length_recipe)
  have 5: "\<forall>x\<in>set ?xs. next_ident w \<le> ident x \<and> ident x < next_ident w2"
    using s3 by (simp add: set_set_iter 4 w1 set_extra_powers_def length_recipe)
  show ?thesis
    by (intro exI conjI) (rule b, rule 1, rule 2, rule 5, rule 4, rule 4)
qed


lemma add_edges_fresh:
  "potion \<in> set (nodes g) \<Longrightarrow> distinct xs \<Longrightarrow>
   \<forall>x\<in>set xs. IngredientInst x \<notin> set (nodes g) \<Longrightarrow>
   add_edges g potion xs =
     g\<lparr>nodes := nodes g @ map IngredientInst xs,
       edges := edges g @ map (\<lambda>x. (potion, IngredientInst x)) xs\<rparr>"
  if "\<forall>e\<in>set (edges g). snd e \<in> set (nodes g)"
  using that
proof (induction xs arbitrary: g)
  case Nil
  then show ?case by (simp add: add_edges_def)
next
  case (Cons x xs)
  let ?g = "g\<lparr>nodes := nodes g @ [IngredientInst x], edges := edges g @ [(potion, IngredientInst x)]\<rparr>"
  have e: "(potion, IngredientInst x) \<notin> set (edges g)"
    using Cons.prems by force
  have a: "add_edge g potion (IngredientInst x) = ?g"
    using Cons.prems e by (simp add: add_edge_def add_node_def Let_def)
  have "add_edges g potion (x # xs) = add_edges ?g potion xs"
    by (simp add: add_edges_def a)
  also have "\<dots> = ?g\<lparr>nodes := nodes ?g @ map IngredientInst xs,
       edges := edges ?g @ map (\<lambda>x. (potion, IngredientInst x)) xs\<rparr>"
    using Cons.prems by (intro Cons.IH) auto
  finally show ?case by simp
qed


lemma generate_graph_loop_shape:
  assumes "\<forall>p\<in>set ps. is_potion_instance p"
    and "set ps \<subseteq> set P"
    and "\<forall>p\<in>set P. is_potion_instance p"
    and "nodes g = P @ map snd (edges g)"
    and "fst ` set (edges g) \<subseteq> set P"
    and "distinct (map snd (edges g))"
    and "\<forall>v\<in>snd ` set (edges g). \<exists>i. v = IngredientInst i \<and> ident i < next_ident w"
  shows "\<exists>g' w'. generate_graph_loop ps g w = (Inr g', w')
      \<and> nodes g' = P @ map snd (edges g')
      \<and> fst ` set (edges g') \<subseteq> set P
      \<and> distinct (map snd (edges g'))
      \<and> (\<forall>v\<in>snd ` set (edges g'). is_ingredient v)
      \<and> mset (map (\<lambda>e. (fst e, requirement (snd e))) (edges g'))
          = mset (map (\<lambda>e. (fst e, requirement (snd e))) (edges g))
            + mset (concat (map (\<lambda>p. map (\<lambda>r. (p, Some r)) (recipe_of p)) ps))
      \<and> dicts w' = dicts w"
  using assms
proof (induction ps arbitrary: g w)
  case Nil
  then show ?case by fastforce
next
  case (Cons p ps)
  from Cons.prems(1) obtain n c where p: "p = PotionInst n c"
    by (cases p) auto
  from brew_instance [of n c w] obtain xs w1 where
    b: "brew (PotionInst n c) w = (Inr xs, w1)"
    and r: "mset (map (\<lambda>x. (cls x, quantity x, quality x)) xs) = mset (recipe c)"
    and d: "distinct (map ident xs)"
    and f: "\<forall>x\<in>set xs. next_ident w \<le> ident x \<and> ident x < next_ident w1"
    and n1: "next_ident w1 = next_ident w + 3"
    and d1: "dicts w1 = dicts w"
    by blast
  let ?new = "map (\<lambda>x. (p, IngredientInst x)) xs"
  let ?g = "g\<lparr>nodes := nodes g @ map IngredientInst xs, edges := edges g @ ?new\<rparr>"
  have pin: "p \<in> set (nodes g)"
    using Cons.prems(2,4) by simp
  have dxs: "distinct xs"
    using d by (simp add: distinct_map)
  have notP: "IngredientInst x \<notin> set P" for x
    using Cons.prems(3) by fastforce
  have old: "IngredientInst x \<notin> snd ` set (edges g)" if "x \<in> set xs" for x
  proof
    assume "IngredientInst x \<in> snd ` set (edges g)"
    with Cons.prems(7) have "ident x < next_ident w" by fastforce
    with f that show False by fastforce
  qed
  have fr: "\<forall>x\<in>set xs. IngredientInst x \<notin> set (nodes g)"
    using notP old Cons.prems(4) by simp
  have cl: "\<forall>e\<in>set (edges g). snd e \<in> set (nodes g)"
    using Cons.prems(4) by simp
  have a: "add_edges g p xs = ?g"
    using add_edges_fresh [OF cl pin dxs fr] .
  have step: "generate_graph_loop (p # ps) g w = generate_graph_loop ps ?g w1"
    using b a p by simp
  have i1: "\<forall>p\<in>set ps. is_potion_instance p" using Cons.prems(1) by simp
  have i2: "set ps \<subseteq> set P" using Cons.prems(2) by simp
  have i4: "nodes ?g = P @ map snd (edges ?g)"
    using Cons.prems(4) by (simp add: comp_def)
  have i5: "fst ` set (edges ?g) \<subseteq> set P"
    using Cons.prems(2,5) by auto
  have "distinct (map IngredientInst xs)"
    using dxs by (simp add: distinct_map inj_on_def)
  moreover have "set (map snd (edges g)) \<inter> set (map IngredientInst xs) = {}"
  proof (rule ccontr)
    assume "set (map snd (edges g)) \<inter> set (map IngredientInst xs) \<noteq> {}"
    then obtain v where v: "v \<in> set (map snd (edges g))" "v \<in> set (map IngredientInst xs)"
      by blast
    from v(2) obtain x where x: "x \<in> set xs" "v = IngredientInst x"
      by auto
    from v(1) x(2) have "IngredientInst x \<in> snd ` set (edges g)"
      by simp
    with old [OF x(1)] show False by simp
  qed
  moreover have "map snd (edges ?g) = map snd (edges g) @ map IngredientInst xs"
    by (simp add: comp_def)
  ultimately have i6: "distinct (map snd (edges ?g))"
    using Cons.prems(6) by (simp only: distinct_append)
  have i7: "\<forall>v\<in>snd ` set (edges ?g). \<exists>i. v = IngredientInst i \<and> ident i < next_ident w1"
  proof
    fix v assume "v \<in> snd ` set (edges ?g)"
    then consider "v \<in> snd ` set (edges g)" | x where "x \<in> set xs" "v = IngredientInst x"
      by auto
    then show "\<exists>i. v = IngredientInst i \<and> ident i < next_ident w1"
    proof cases
      case 1
      with Cons.prems(7) n1 show ?thesis by fastforce
    next
      case 2
      with f show ?thesis by blast
    qed
  qed
  let ?f = "\<lambda>e. (fst e, requirement (snd e))"
  let ?rest = "mset (concat (map (\<lambda>p. map (\<lambda>r. (p, Some r)) (recipe_of p)) ps))"
  from Cons.IH [OF i1 i2 Cons.prems(3) i4 i5 i6 i7] obtain g' w' where
    res: "generate_graph_loop ps ?g w1 = (Inr g', w')"
    and c1: "nodes g' = P @ map snd (edges g')"
    and c2: "fst ` set (edges g') \<subseteq> set P"
    and c3: "distinct (map snd (edges g'))"
    and c4: "\<forall>v\<in>snd ` set (edges g'). is_ingredient v"
    and c5: "mset (map ?f (edges g')) = mset (map ?f (edges ?g)) + ?rest"
    and c6: "dicts w' = dicts w1"
    by (elim exE conjE) (rule that)
  have "map ?f ?new = map (\<lambda>r. (p, Some r)) (map (\<lambda>x. (cls x, quantity x, quality x)) xs)"
    by simp
  then have "mset (map ?f ?new)
          = mset (map (\<lambda>r. (p, Some r)) (map (\<lambda>x. (cls x, quantity x, quality x)) xs))"
    by (rule arg_cong)
  also have "\<dots> = image_mset (\<lambda>r. (p, Some r)) (mset (map (\<lambda>x. (cls x, quantity x, quality x)) xs))"
    by (rule mset_map)
  also have "\<dots> = image_mset (\<lambda>r. (p, Some r)) (mset (recipe c))"
    by (simp only: r)
  also have "\<dots> = mset (map (\<lambda>r. (p, Some r)) (recipe_of p))"
    by (simp only: p recipe_of.simps mset_map)
  finally have m: "mset (map ?f ?new) = mset (map (\<lambda>r. (p, Some r)) (recipe_of p))" .
  have e: "mset (map ?f (edges ?g)) = mset (map ?f (edges g)) + mset (map ?f ?new)"
    by simp
  have "mset (concat (map (\<lambda>p. map (\<lambda>r. (p, Some r)) (recipe_of p)) (p # ps)))
          = mset (map (\<lambda>r. (p, Some r)) (recipe_of p)) + ?rest"
    by simp
  then have c5': "mset (map ?f (edges g'))
          = mset (map ?f (edges g))
            + mset (concat (map (\<lambda>p. map (\<lambda>r. (p, Some r)) (recipe_of p)) (p # ps)))"
    by (simp only: c5 e m add.assoc)
  show ?case
    by (intro exI conjI) (simp only: step res, rule c1, rule c2, rule c3, rule c4, rule c5', simp only: c6 d1)
qed

subsection \<open>Topological sort of a two-layer graph\<close>

lemma map_of_filter_keys:
  "k \<notin> S \<Longrightarrow> map_of (filter (\<lambda>kv. fst kv \<notin> S) al) k = map_of al k"
  by (induction al) auto

lemma visit_children_ones:
  "distinct cs \<Longrightarrow> \<forall>c\<in>set cs. map_of im c = Some 1 \<Longrightarrow>
     visit_children cs im zero = Inr (filter (\<lambda>kv. fst kv \<notin> set cs) im, zero @ cs)"
proof (induction cs arbitrary: im zero)
  case Nil
  then show ?case by simp
next
  case (Cons c cs)
  have d: "AList.delete c im = filter (\<lambda>kv. fst kv \<notin> {c}) im"
    by (simp add: AList.delete_eq case_prod_unfold) (metis)
  have "\<forall>c'\<in>set cs. map_of (AList.delete c im) c' = Some 1"
    using Cons.prems by (auto simp: AList.delete_conv)
  with Cons.IH [of "AList.delete c im" "zero @ [c]"] Cons.prems(1)
  have "visit_children cs (AList.delete c im) (zero @ [c])
          = Inr (filter (\<lambda>kv. fst kv \<notin> set cs) (AList.delete c im), (zero @ [c]) @ cs)"
    by simp
  moreover have "filter (\<lambda>kv. fst kv \<notin> set cs) (AList.delete c im)
          = filter (\<lambda>kv. fst kv \<notin> set (c # cs)) im"
    by (simp add: d conj_commute)
  moreover have "map_of im c = Some 1" using Cons.prems(2) by simp
  ultimately show ?case by simp
qed

lemma visit_generation_ones:
  "set ns \<subseteq> set (nodes g) \<Longrightarrow> distinct (concat (map (children g) ns)) \<Longrightarrow>
   \<forall>c\<in>set (concat (map (children g) ns)). map_of im c = Some 1 \<Longrightarrow>
     visit_generation g ns im zero
       = Inr (filter (\<lambda>kv. fst kv \<notin> set (concat (map (children g) ns))) im,
              zero @ concat (map (children g) ns))"
proof (induction ns arbitrary: im zero)
  case Nil
  then show ?case by simp
next
  case (Cons n ns)
  let ?cs = "children g n"
  let ?im = "filter (\<lambda>kv. fst kv \<notin> set ?cs) im"
  have s: "successors g n = Inr ?cs"
    using Cons.prems(1) by (simp add: successors_def children_def)
  have dc: "distinct ?cs" and dr: "distinct (concat (map (children g) ns))"
    and disj: "set ?cs \<inter> set (concat (map (children g) ns)) = {}"
    using Cons.prems(2) by auto
  have v: "visit_children ?cs im zero = Inr (?im, zero @ ?cs)"
    using Cons.prems(3) by (intro visit_children_ones dc) simp
  have "\<forall>c\<in>set (concat (map (children g) ns)). map_of ?im c = Some 1"
  proof
    fix c assume c: "c \<in> set (concat (map (children g) ns))"
    with disj have "c \<notin> set ?cs" by blast
    then have "map_of ?im c = map_of im c" by (rule map_of_filter_keys)
    with Cons.prems(3) c show "map_of ?im c = Some 1" by simp
  qed
  with Cons.IH [of ?im "zero @ ?cs"] Cons.prems(1) dr
  have "visit_generation g ns ?im (zero @ ?cs)
       = Inr (filter (\<lambda>kv. fst kv \<notin> set (concat (map (children g) ns))) ?im,
              (zero @ ?cs) @ concat (map (children g) ns))"
    by simp
  moreover have "filter (\<lambda>kv. fst kv \<notin> set (concat (map (children g) ns))) ?im
       = filter (\<lambda>kv. fst kv \<notin> set (concat (map (children g) (n # ns)))) im"
    by (simp add: conj_commute)
  ultimately show ?case
    by (simp add: s v)
qed


lemma same_target_same_source:
  "distinct (map snd E) \<Longrightarrow> (a, v) \<in> set E \<Longrightarrow> (b, v) \<in> set E \<Longrightarrow> a = b"
proof -
  assume "distinct (map snd E)" "(a, v) \<in> set E" "(b, v) \<in> set E"
  then have "inj_on snd (set E)" by (simp add: distinct_map)
  from inj_onD [OF this, of "(a, v)" "(b, v)"] \<open>(a, v) \<in> set E\<close> \<open>(b, v) \<in> set E\<close>
  have "(a, v) = (b, v)" by simp
  then show "a = b" by simp
qed

lemma set_children: "set (children g n) = {v. (n, v) \<in> set (edges g)}"
  by (force simp: children_def)

lemma distinct_children_concat:
  "distinct (map snd (edges g)) \<Longrightarrow> distinct P \<Longrightarrow> distinct (concat (map (children g) P))"
proof (induction P)
  case Nil
  then show ?case by simp
next
  case (Cons p P)
  have 1: "distinct (children g p)"
    using Cons.prems(1) by (simp add: children_def distinct_map_filter)
  have 2: "set (children g p) \<inter> set (concat (map (children g) P)) = {}"
  proof (rule ccontr)
    assume "set (children g p) \<inter> set (concat (map (children g) P)) \<noteq> {}"
    then obtain v q where "v \<in> set (children g p)" "q \<in> set P" "v \<in> set (children g q)"
      by auto
    then have "(p, v) \<in> set (edges g)" "(q, v) \<in> set (edges g)" "q \<in> set P"
      by (simp_all add: set_children)
    with same_target_same_source [OF Cons.prems(1)] have "p = q" "q \<in> set P" by blast+
    with Cons.prems(2) show False by simp
  qed
  from Cons 1 2 show ?case by simp
qed

lemma set_children_concat:
  "fst ` set (edges g) \<subseteq> set P \<Longrightarrow>
     set (concat (map (children g) P)) = snd ` set (edges g)"
  by (force simp: set_children)

lemma distinct_filter_eq_le:
  "distinct xs \<Longrightarrow> length (filter (\<lambda>v. v = n) xs) \<le> 1"
  by (induction xs) (auto simp: filter_empty_conv)

lemma in_degree_target:
  "distinct (map snd (edges g)) \<Longrightarrow> n \<in> snd ` set (edges g) \<Longrightarrow> in_degree g n = 1"
proof -
  assume d: "distinct (map snd (edges g))" and n: "n \<in> snd ` set (edges g)"
  have "filter (\<lambda>e. snd e = n) (edges g) \<noteq> []"
    using n by (auto simp: filter_empty_conv)
  moreover have "length (filter (\<lambda>v. v = n) (map snd (edges g))) \<le> 1"
    using d by (rule distinct_filter_eq_le)
  moreover have "length (filter (\<lambda>v. v = n) (map snd (edges g)))
       = length (filter (\<lambda>e. snd e = n) (edges g))"
    by (simp add: filter_map comp_def)
  ultimately have "length (filter (\<lambda>e. snd e = n) (edges g)) = 1"
    by (cases "filter (\<lambda>e. snd e = n) (edges g)") auto
  then show ?thesis by (simp add: in_degree_def)
qed

lemma in_degree_source:
  "n \<notin> snd ` set (edges g) \<Longrightarrow> in_degree g n = 0"
  by (auto simp: in_degree_def filter_empty_conv)


lemma map_of_const_keys:
  "c \<in> set T \<Longrightarrow> map_of (map (\<lambda>n. (n, v)) T) c = Some v"
  by (induction T) auto

lemma topological_loop_done: "topological_loop g [] [] out = Inr out"
  by (subst topological_loop.simps) simp

lemma topological_sort_two_layer:
  assumes nd: "nodes g = P @ map snd (edges g)"
    and d: "distinct (nodes g)"
    and src: "fst ` set (edges g) \<subseteq> set P"
  shows "topological_sort g = Inr (P @ concat (map (children g) P))"
proof -
  let ?T = "map snd (edges g)"
  let ?Z = "concat (map (children g) P)"
  let ?im = "map (\<lambda>n. (n, 1::int)) ?T"
  from nd d have dP: "distinct P" and dT: "distinct ?T" and disj: "set P \<inter> set ?T = {}"
    by simp_all
  have degP: "in_degree g n = 0" if "n \<in> set P" for n
    using that disj by (intro in_degree_source) auto
  have degT: "in_degree g n = 1" if "n \<in> set ?T" for n
    using that dT by (intro in_degree_target) auto
  have z0: "filter (\<lambda>n. in_degree g n = 0) (nodes g) = P"
    by (simp add: nd degP degT cong: filter_cong)
  have "filter (\<lambda>n. 0 < in_degree g n) (nodes g) = ?T"
    by (simp add: nd degP degT cong: filter_cong)
  then have im0: "map (\<lambda>n. (n, in_degree g n)) (filter (\<lambda>n. 0 < in_degree g n) (nodes g)) = ?im"
    using degT by simp
  have ts: "topological_sort g = topological_loop g P ?im []"
    by (simp only: topological_sort_def z0 im0)
  have setZ: "set ?Z = set ?T"
    using set_children_concat [OF src] by simp
  have dZ: "distinct ?Z"
    using dT dP by (rule distinct_children_concat)
  show ?thesis
  proof (cases "P = []")
    case True
    with src have "edges g = []" by (cases "edges g") auto
    with True show ?thesis
      by (simp add: ts topological_loop_done)
  next
    case False
    have ones: "\<forall>c\<in>set ?Z. map_of ?im c = Some 1"
      using setZ map_of_const_keys [of _ ?T 1] by blast
    have "set P \<subseteq> set (nodes g)" by (simp add: nd)
    from visit_generation_ones [OF this dZ ones, of "[]"]
    have "visit_generation g P ?im [] = Inr (filter (\<lambda>kv. fst kv \<notin> set ?Z) ?im, ?Z)"
      by simp
    moreover have "filter (\<lambda>kv. fst kv \<notin> set ?Z) ?im = []"
      unfolding setZ by (simp add: filter_empty_conv)
    ultimately have g1: "visit_generation g P ?im [] = Inr ([], ?Z)"
      by simp
    have l1: "topological_loop g P ?im [] = topological_loop g ?Z [] P"
      by (subst topological_loop.simps)
        (simp only: False g1 if_False sum.case prod.case append_Nil)
    show ?thesis
    proof (cases "?Z = []")
      case True
      have "topological_loop g ?Z [] P = Inr P"
        by (simp only: True topological_loop_done)
      then show ?thesis
        by (simp only: ts l1 True append_Nil2)
    next
      case nonempty: False
      have leaf: "children g z = []" if "z \<in> set ?Z" for z
      proof -
        from that have "z \<in> set ?T" by (simp only: setZ)
        with disj have "z \<notin> set P" by blast
        with src have "z \<notin> fst ` set (edges g)" by blast
        then show ?thesis by (auto simp: children_def filter_empty_conv)
      qed
      then have cz: "concat (map (children g) ?Z) = []"
        by simp
      have "set ?Z \<subseteq> set (nodes g)"
        unfolding setZ by (simp add: nd)
      from visit_generation_ones [OF this, of "[]" "[]"] cz
      have g2: "visit_generation g ?Z [] [] = Inr ([], [])"
        by simp
      have "topological_loop g ?Z [] P = topological_loop g [] [] (P @ ?Z)"
        by (subst topological_loop.simps)
          (simp only: nonempty g2 if_False sum.case prod.case)
      then show ?thesis
        by (simp only: ts l1 topological_loop_done)
    qed
  qed
qed

section \<open>Theorems\<close>

text \<open>
  C10. For an ingredient whose quality is one of the three tiers, \<open>get_cost\<close> returns
  quantity times the unit cost of the tier (normal 1, premium 3, legendary 5); the cost is
  multiplicative in the quantity, and a premium ingredient of quantity 2 costs 6, twice
  the cost of a premium ingredient of quantity 1.
\<close>

theorem get_cost_quantity_times_unit:
  "quality i \<in> set quality_options \<Longrightarrow>
     get_cost i = Inr (quantity i *
        (if quality i = ''normal'' then 1 else if quality i = ''premium'' then 3 else 5))
   \<and> get_cost (i\<lparr>quantity := k * quantity i\<rparr>) =
        map_sum id (\<lambda>c. k * c) (get_cost i)
   \<and> get_cost (i\<lparr>quantity := 2, quality := ''premium''\<rparr>) = Inr 6
   \<and> get_cost (i\<lparr>quantity := 1, quality := ''premium''\<rparr>) = Inr 3"
  by (auto simp: get_cost_def quality_costs_def quality_options_def)

theorem get_cost_quantity_times_unit_witness:
  "get_cost \<lparr>ident = 0, cls = Herb, quantity = 2, quality = ''premium''\<rparr> = Inr 6"
  using get_cost_quantity_times_unit
    [of "\<lparr>ident = 0, cls = Herb, quantity = 2, quality = ''premium''\<rparr>" 1]
  by (simp add: quality_options_def)

end
